theory Spec2Isabelle
  imports Main "HOL-Library.Word" "HOL-Library.Signed_Division"
begin

section \<open>Go values used by every revision of the load balancer\<close>

text \<open>
  The repository holds several revisions of one program, each a complete \<^verbatim>\<open>package main\<close>:
  \<^item> \<^verbatim>\<open>src/main.go\<close>: configuration file, no lock, package-level \<^verbatim>\<open>http.Get\<close>
    (definitions with the suffix \<open>_m\<close>);
  \<^item> \<^verbatim>\<open>src/unnamed/part_002\<close>: the lock-based revision (\<^verbatim>\<open>sync.RWMutex\<close>,
    \<^verbatim>\<open>removeHealthyRemote\<close>, \<^verbatim>\<open>CloseAndLog\<close>); its definitions carry the source's names;
  \<^item> \<^verbatim>\<open>src/unnamed/part_001\<close>, second file (from line 170): the channel-based revision
    (\<^verbatim>\<open>chooseHealthyRemote\<close>, the fallback \<^verbatim>\<open>chooseRemote\<close>, \<^verbatim>\<open>acceptAsChan\<close>);
    suffix \<open>_c\<close> where a name is already taken by the lock-based revision.
\<close>

text \<open>Go's \<^verbatim>\<open>int\<close> on a 64-bit platform: \<open>+\<close> wraps around, \<open>sint\<close> reads the value.\<close>

type_synonym go_int = "64 word"

text \<open>
  A Go function either returns an \<^verbatim>\<open>error\<close> value (\<open>Error\<close>, with the message of
  \<^verbatim>\<open>errors.New\<close>) or the runtime panics (\<open>Panic\<close>).
\<close>

datatype fault = Error string | Panic string

text \<open>
  \<^verbatim>\<open>a % n\<close> with \<^verbatim>\<open>n = len(...)\<close>: the remainder of the truncating division (the sign of
  the dividend), a run-time panic when the divisor is zero.
\<close>

definition go_rem :: "go_int \<Rightarrow> nat \<Rightarrow> fault + int" where
  "go_rem a n =
     (if n = 0 then Inl (Panic ''integer divide by zero'') else Inr (sint a smod int n))"

text \<open>\<^verbatim>\<open>xs[i]\<close>: a run-time panic outside \<^verbatim>\<open>0 <= i < len(xs)\<close>.\<close>

definition index :: "'a list \<Rightarrow> int \<Rightarrow> fault + 'a" where
  "index xs i =
     (if 0 \<le> i \<and> i < int (length xs) then Inr (xs ! nat i)
      else Inl (Panic ''index out of range''))"

text \<open>
  \<^verbatim>\<open>sync.RWMutex\<close>: the number of read locks held, whether the write lock is held, and
  whether a writer is blocked in \<^verbatim>\<open>Lock\<close> (a blocked \<^verbatim>\<open>Lock\<close> call excludes new readers).
  An operation that would block is \<open>None\<close>.
\<close>

record RWMutex =
  readerCount :: nat
  writerHeld :: bool
  writerWaiting :: bool

definition RLock :: "RWMutex \<Rightarrow> RWMutex option" where
  "RLock m =
     (if writerHeld m \<or> writerWaiting m then None
      else Some (m\<lparr>readerCount := Suc (readerCount m)\<rparr>))"

definition RUnlock :: "RWMutex \<Rightarrow> fault + RWMutex" where
  "RUnlock m =
     (if readerCount m = 0 then Inl (Panic ''sync: RUnlock of unlocked RWMutex'')
      else Inr (m\<lparr>readerCount := readerCount m - 1\<rparr>))"

definition Lock :: "RWMutex \<Rightarrow> RWMutex option" where
  "Lock m =
     (if writerHeld m \<or> 0 < readerCount m then None
      else Some (m\<lparr>writerHeld := True\<rparr>))"

definition Unlock :: "RWMutex \<Rightarrow> RWMutex" where
  "Unlock m = m\<lparr>writerHeld := False\<rparr>"

text \<open>The zero value of \<^verbatim>\<open>sync.RWMutex\<close>: an unlocked mutex.\<close>

definition RWMutex_zero :: RWMutex where
  "RWMutex_zero = \<lparr>readerCount = 0, writerHeld = False, writerWaiting = False\<rparr>"

section \<open>Configuration and the load balancer structs\<close>

record HealthCheck =
  Period :: int
  UpThreshold :: int
  DownThreshold :: int

record Configuration =
  KubeApiServers :: "string list"
  ListenAddr :: string
  HealthCheckRules :: HealthCheck

text \<open>
  \<^verbatim>\<open>http.Client\<close>, reduced to the two settings \<^verbatim>\<open>main\<close> makes:
  \<^verbatim>\<open>Transport.TLSClientConfig.InsecureSkipVerify\<close> and \<^verbatim>\<open>Timeout\<close> in seconds
  (zero means no timeout).
\<close>

record Client =
  InsecureSkipVerify :: bool
  Timeout :: nat

text \<open>\<^verbatim>\<open>apiServerLb\<close> of the lock-based revision (part_002, lines 43-51).\<close>

record apiServerLb =
  Local :: string
  RemoteServers :: "string list"
  HealthyServers :: "string list"
  HealthyServersLock :: RWMutex
  rrCounter :: go_int
  healthCheckRules :: HealthCheck
  httpClient :: Client

text \<open>
  \<^verbatim>\<open>apiServerLb\<close> of the channel-based revision (part_001, lines 211-218). The field
  \<^verbatim>\<open>HealthyServersChan\<close> is never assigned or read; the healthy list lives in a local
  variable of \<^verbatim>\<open>Start\<close>.
\<close>

record apiServerLb_c =
  Local_c :: string
  RemoteServers_c :: "string list"
  rrCounter_c :: go_int
  healthCheckRules_c :: HealthCheck
  httpClient_c :: Client

text \<open>\<^verbatim>\<open>apiServerLb\<close> of \<^verbatim>\<open>src/main.go\<close> (lines 41-47).\<close>

record apiServerLb_m =
  Local_m :: string
  RemoteServers_m :: "string list"
  HealthyServers_m :: "string list"
  rrCounter_m :: go_int
  healthCheckRules_m :: HealthCheck

section \<open>Backend selection\<close>

text \<open>
  \<^verbatim>\<open>chooseHealthyRemote\<close> (part_001, lines 245-256): the emptiness check, the pick at
  \<^verbatim>\<open>rrCounter % len\<close>, and the increment of the counter.
\<close>

definition chooseHealthyRemote ::
  "apiServerLb_c \<Rightarrow> string list \<Rightarrow> (fault + string) \<times> apiServerLb_c" where
  "chooseHealthyRemote lb HealthyServers' =
     (let numberOfHealthyRemotes = length HealthyServers' in
      if numberOfHealthyRemotes = 0 then (Inl (Error ''no remote servers are Healthy''), lb)
      else
        (case go_rem (rrCounter_c lb) numberOfHealthyRemotes of
           Inl p \<Rightarrow> (Inl p, lb)
         | Inr pickedIdx \<Rightarrow>
             (case index HealthyServers' pickedIdx of
                Inl p \<Rightarrow> (Inl p, lb)
              | Inr picked \<Rightarrow> (Inr picked, lb\<lparr>rrCounter_c := rrCounter_c lb + 1\<rparr>))))"

text \<open>
  The fallback \<^verbatim>\<open>chooseRemote\<close> of the channel-based revision (part_001, lines 258-270),
  over the configured list.
\<close>

definition chooseRemote_c :: "apiServerLb_c \<Rightarrow> (fault + string) \<times> apiServerLb_c" where
  "chooseRemote_c lb =
     (let numberOfRemotes = length (RemoteServers_c lb) in
      if numberOfRemotes = 0 then (Inl (Error ''no remote servers''), lb)
      else
        (case go_rem (rrCounter_c lb) numberOfRemotes of
           Inl p \<Rightarrow> (Inl p, lb)
         | Inr pickedIdx \<Rightarrow>
             (case index (RemoteServers_c lb) pickedIdx of
                Inl p \<Rightarrow> (Inl p, lb)
              | Inr picked \<Rightarrow> (Inr picked, lb\<lparr>rrCounter_c := rrCounter_c lb + 1\<rparr>))))"

text \<open>
  \<^verbatim>\<open>chooseRemote\<close> of the lock-based revision (part_002, lines 81-94). \<open>None\<close>: the call
  blocks in \<^verbatim>\<open>RLock\<close>. The early return of the empty case comes before any
  \<^verbatim>\<open>RUnlock\<close>; the counter is read and never written.
\<close>

definition chooseRemote :: "apiServerLb \<Rightarrow> ((fault + string) \<times> apiServerLb) option" where
  "chooseRemote lb =
     (case RLock (HealthyServersLock lb) of
        None \<Rightarrow> None
      | Some m \<Rightarrow>
          (let lb1 = lb\<lparr>HealthyServersLock := m\<rparr>;
               numberOfHealthyRemotes = length (HealthyServers lb1) in
           if numberOfHealthyRemotes = 0
           then Some (Inl (Error ''no remote servers are Healthy''), lb1)
           else
             (case go_rem (rrCounter lb1) numberOfHealthyRemotes of
                Inl p \<Rightarrow> Some (Inl p, lb1)
              | Inr pickedIdx \<Rightarrow>
                  (case index (HealthyServers lb1) pickedIdx of
                     Inl p \<Rightarrow> Some (Inl p, lb1)
                   | Inr picked \<Rightarrow>
                       (case RUnlock (HealthyServersLock lb1) of
                          Inl p \<Rightarrow> Some (Inl p, lb1)
                        | Inr m' \<Rightarrow> Some (Inr picked, lb1\<lparr>HealthyServersLock := m'\<rparr>))))))"

text \<open>\<^verbatim>\<open>chooseRemote\<close> of \<^verbatim>\<open>src/main.go\<close> (lines 66-73): it changes no field.\<close>

definition chooseRemote_m :: "apiServerLb_m \<Rightarrow> fault + string" where
  "chooseRemote_m lb =
     (let numberOfHealthyRemotes = length (HealthyServers_m lb) in
      if numberOfHealthyRemotes = 0 then Inl (Error ''No remote servers are Healthy'')
      else
        (case go_rem (rrCounter_m lb) numberOfHealthyRemotes of
           Inl p \<Rightarrow> Inl p
         | Inr picked \<Rightarrow> index (HealthyServers_m lb) picked))"

text \<open>
  \<^verbatim>\<open>removeHealthyRemote\<close>: the loop over the healthy list that appends every server
  different from \<open>remote\<close> (part_002, lines 100-104; part_001, lines 275-279).
\<close>

fun removeHealthyRemote_range :: "string \<Rightarrow> string list \<Rightarrow> string list \<Rightarrow> string list" where
  "removeHealthyRemote_range remote newHealthyServers [] = newHealthyServers"
| "removeHealthyRemote_range remote newHealthyServers (server # rest) =
     removeHealthyRemote_range remote
       (if server \<noteq> remote then newHealthyServers @ [server] else newHealthyServers) rest"

text \<open>The channel-based revision returns the new list (part_001, lines 272-282).\<close>

definition removeHealthyRemote_c :: "string list \<Rightarrow> string \<Rightarrow> string list" where
  "removeHealthyRemote_c HealthyServers' remote =
     removeHealthyRemote_range remote [] HealthyServers'"

text \<open>
  The lock-based revision rebuilds the list under the write lock (part_002, lines
  96-108). \<open>None\<close>: the call blocks in \<^verbatim>\<open>Lock\<close>.
\<close>

definition removeHealthyRemote :: "apiServerLb \<Rightarrow> string \<Rightarrow> apiServerLb option" where
  "removeHealthyRemote lb remote =
     (case Lock (HealthyServersLock lb) of
        None \<Rightarrow> None
      | Some m \<Rightarrow>
          Some (lb\<lparr>HealthyServers := removeHealthyRemote_range remote [] (HealthyServers lb),
                   HealthyServersLock := Unlock m\<rparr>))"

section \<open>The health monitor\<close>

text \<open>
  The part of Go's \<^verbatim>\<open>net/http\<close> the probes depend on. A backend either answers (with
  a certificate that verifies or not, after some seconds, with a status code), accepts
  the connection and never answers, or cannot be reached. \<^verbatim>\<open>Client.Get\<close> returns an
  error or a response; without a timeout it waits for a silent server forever (\<open>None\<close>).
\<close>

datatype server = Answers bool nat int | Silent | Unreachable string

definition Client_Get :: "Client \<Rightarrow> server \<Rightarrow> (string + int) option" where
  "Client_Get c s =
     (case s of
        Unreachable e \<Rightarrow> Some (Inl e)
      | Silent \<Rightarrow> (if Timeout c = 0 then None else Some (Inl ''Client.Timeout exceeded''))
      | Answers certOk seconds StatusCode \<Rightarrow>
          (if \<not> certOk \<and> \<not> InsecureSkipVerify c
           then Some (Inl ''x509: certificate signed by unknown authority'')
           else if Timeout c \<noteq> 0 \<and> Timeout c < seconds
           then Some (Inl ''Client.Timeout exceeded'')
           else Some (Inr StatusCode)))"

text \<open>\<^verbatim>\<open>http.DefaultClient\<close>, which the package-level \<^verbatim>\<open>http.Get\<close> uses.\<close>

definition DefaultClient :: Client where
  "DefaultClient = \<lparr>InsecureSkipVerify = False, Timeout = 0\<rparr>"

text \<open>The client \<^verbatim>\<open>main\<close> builds in part_002 (lines 175-180) and part_001 (lines 370-375).\<close>

definition main_client :: Client where
  "main_client = \<lparr>InsecureSkipVerify = True, Timeout = 5\<rparr>"

text \<open>Log lines, as the format of the call and its arguments.\<close>

datatype log_line =
    NotHealthy string "string + int"
  | ErrAccept string
  | ErrForward string
  | ErrSelectHealthy string
  | ErrSelect string
  | ErrCopy string
  | ErrClose string
  | ErrWriterClose string

text \<open>
  The loop over \<^verbatim>\<open>lb.RemoteServers\<close> of \<^verbatim>\<open>startHealthChecks\<close> (part_002, lines 56-71;
  part_001, lines 223-238): one GET per server, in order; a server is appended when the
  call returned no error and status 200, and logged otherwise. \<open>get\<close> is
  \<^verbatim>\<open>lb.httpClient.Get\<close> during this round.
\<close>

fun startHealthChecks_range ::
  "(string \<Rightarrow> (string + int) option) \<Rightarrow> string list \<Rightarrow> string list \<Rightarrow> log_line list \<Rightarrow>
   (string list \<times> log_line list) option" where
  "startHealthChecks_range get [] newHealthyServers lg = Some (newHealthyServers, lg)"
| "startHealthChecks_range get (server # rest) newHealthyServers lg =
     (case get (''https://'' @ server @ ''/healthz'') of
        None \<Rightarrow> None
      | Some (Inl err) \<Rightarrow>
          startHealthChecks_range get rest newHealthyServers
            (lg @ [NotHealthy server (Inl err)])
      | Some (Inr StatusCode) \<Rightarrow>
          (if StatusCode = 200
           then startHealthChecks_range get rest (newHealthyServers @ [server]) lg
           else startHealthChecks_range get rest newHealthyServers
                  (lg @ [NotHealthy server (Inr StatusCode)])))"

text \<open>
  One iteration of \<^verbatim>\<open>startHealthChecks\<close> in the lock-based revision (part_002, lines
  55-75) against the network \<open>net\<close> (URL to backend). \<open>None\<close>: a probe never returns.
  When \<^verbatim>\<open>Lock\<close> cannot be taken the monitor stays blocked in it, a waiting writer.
\<close>

definition startHealthChecks_iter ::
  "apiServerLb \<Rightarrow> (string \<Rightarrow> server) \<Rightarrow> (apiServerLb \<times> log_line list) option" where
  "startHealthChecks_iter lb net =
     (case startHealthChecks_range (\<lambda>url. Client_Get (httpClient lb) (net url))
             (RemoteServers lb) [] [] of
        None \<Rightarrow> None
      | Some (newHealthyServers, lg) \<Rightarrow>
          (case Lock (HealthyServersLock lb) of
             None \<Rightarrow>
               Some (lb\<lparr>HealthyServersLock := (HealthyServersLock lb)\<lparr>writerWaiting := True\<rparr>\<rparr>, lg)
           | Some m \<Rightarrow>
               Some (lb\<lparr>HealthyServers := newHealthyServers, HealthyServersLock := Unlock m\<rparr>,
                     lg)))"

text \<open>
  One iteration in the channel-based revision (part_001, lines 222-240): the list that
  is sent on the channel.
\<close>

definition startHealthChecks_iter_c ::
  "apiServerLb_c \<Rightarrow> (string \<Rightarrow> server) \<Rightarrow> (string list \<times> log_line list) option" where
  "startHealthChecks_iter_c lb net =
     startHealthChecks_range (\<lambda>url. Client_Get (httpClient_c lb) (net url))
       (RemoteServers_c lb) [] []"

text \<open>
  \<^verbatim>\<open>src/main.go\<close>, lines 51-61: the same loop with the package-level \<^verbatim>\<open>http.Get\<close>
  (under the comment \<^verbatim>\<open>// TODO add timeout\<close>) and without the log line.
\<close>

fun startHealthChecks_range_m ::
  "(string \<Rightarrow> server) \<Rightarrow> string list \<Rightarrow> string list \<Rightarrow> string list option" where
  "startHealthChecks_range_m net [] newHealthyServers = Some newHealthyServers"
| "startHealthChecks_range_m net (server # rest) newHealthyServers =
     (case Client_Get DefaultClient (net (''https://'' @ server @ ''/healthz'')) of
        None \<Rightarrow> None
      | Some (Inl err) \<Rightarrow> startHealthChecks_range_m net rest newHealthyServers
      | Some (Inr StatusCode) \<Rightarrow>
          (if StatusCode = 200
           then startHealthChecks_range_m net rest (newHealthyServers @ [server])
           else startHealthChecks_range_m net rest newHealthyServers))"

definition startHealthChecks_iter_m ::
  "apiServerLb_m \<Rightarrow> (string \<Rightarrow> server) \<Rightarrow> apiServerLb_m option" where
  "startHealthChecks_iter_m lb net =
     (case startHealthChecks_range_m net (RemoteServers_m lb) [] of
        None \<Rightarrow> None
      | Some newHealthyServers \<Rightarrow> Some (lb\<lparr>HealthyServers_m := newHealthyServers\<rparr>))"

section \<open>The stream forwarder\<close>

text \<open>
  Connections are numbered. The process state the forwarder touches: the connections
  closed so far, the log, and the exit code once the process has exited.
\<close>

type_synonym conn = nat

record process =
  closedConns :: "conn set"
  logs :: "log_line list"
  exitCode :: "int option"

text \<open>\<^verbatim>\<open>net.Conn.Close\<close>: closing a closed connection returns an error.\<close>

definition Close :: "conn \<Rightarrow> process \<Rightarrow> string option \<times> process" where
  "Close c st =
     (if c \<in> closedConns st then (Some ''use of closed network connection'', st)
      else (None, st\<lparr>closedConns := insert c (closedConns st)\<rparr>))"

definition Printf :: "log_line \<Rightarrow> process \<Rightarrow> process" where
  "Printf l st = st\<lparr>logs := logs st @ [l]\<rparr>"

text \<open>\<^verbatim>\<open>log.Fatalf\<close>: the line is written and the process exits with status 1.\<close>

definition Fatalf :: "log_line \<Rightarrow> process \<Rightarrow> process" where
  "Fatalf l st = st\<lparr>logs := logs st @ [l], exitCode := Some 1\<rparr>"

text \<open>\<^verbatim>\<open>CloseAndLog\<close> (part_002, lines 143-148; part_001, lines 338-343).\<close>

definition CloseAndLog :: "conn \<Rightarrow> process \<Rightarrow> process" where
  "CloseAndLog c st =
     (case Close c st of
        (None, st') \<Rightarrow> st'
      | (Some err, st') \<Rightarrow> Printf (ErrClose err) st')"

text \<open>
  \<^verbatim>\<open>copyConn\<close> of part_002 (lines 152-159) and part_001 (lines 347-354), from the moment
  \<^verbatim>\<open>io.Copy\<close> returns \<open>err\<close> (\<open>None\<close> at end of stream): the error is logged, then the
  deferred calls run, last registered first.
\<close>

definition copyConn :: "conn \<Rightarrow> conn \<Rightarrow> string option \<Rightarrow> process \<Rightarrow> process" where
  "copyConn writer reader err st =
     (let st1 = (case err of None \<Rightarrow> st | Some e \<Rightarrow> Printf (ErrCopy e) st)
      in CloseAndLog writer (CloseAndLog reader st1))"

text \<open>
  \<^verbatim>\<open>forward\<close>: the two goroutines; \<open>localFirst\<close> says which \<^verbatim>\<open>io.Copy\<close> returns first,
  \<open>err1\<close> and \<open>err2\<close> what the copies towards the local and the remote connection
  return. The function has no result.
\<close>

definition forward ::
  "conn \<Rightarrow> conn \<Rightarrow> bool \<Rightarrow> string option \<Rightarrow> string option \<Rightarrow> process \<Rightarrow> process" where
  "forward localConn remoteConn localFirst err1 err2 st =
     (if localFirst
      then copyConn remoteConn localConn err2 (copyConn localConn remoteConn err1 st)
      else copyConn localConn remoteConn err1 (copyConn remoteConn localConn err2 st))"

text \<open>
  \<^verbatim>\<open>copyConn\<close> of \<^verbatim>\<open>src/main.go\<close> (lines 109-118): \<^verbatim>\<open>log.Fatalf\<close> on a copy error and on
  a close error, and only the writer is closed. Nothing runs once the process has exited.
\<close>

definition copyConn_m :: "conn \<Rightarrow> conn \<Rightarrow> string option \<Rightarrow> process \<Rightarrow> process" where
  "copyConn_m writer reader err st =
     (if exitCode st \<noteq> None then st
      else
        (case err of
           Some e \<Rightarrow> Fatalf (ErrCopy e) st
         | None \<Rightarrow>
             (case Close writer st of
                (Some e, st') \<Rightarrow> Fatalf (ErrWriterClose e) st'
              | (None, st') \<Rightarrow> st')))"

definition forward_m ::
  "conn \<Rightarrow> conn \<Rightarrow> bool \<Rightarrow> string option \<Rightarrow> string option \<Rightarrow> process \<Rightarrow> process" where
  "forward_m localConn remoteConn localFirst err1 err2 st =
     (if localFirst
      then copyConn_m remoteConn localConn err2 (copyConn_m localConn remoteConn err1 st)
      else copyConn_m localConn remoteConn err1 (copyConn_m remoteConn localConn err2 st))"

section \<open>The connection acceptor\<close>

text \<open>
  What the environment does during a run of \<^verbatim>\<open>Start\<close>, in order: the monitor goroutine
  finishes a round of probes against the network as it is then, or
  \<^verbatim>\<open>listener.Accept\<close> returns (an error or a connection), together with what
  \<^verbatim>\<open>net.Dial\<close> would answer for each address at that moment.
\<close>

datatype event =
    Tick "string \<Rightarrow> server"
  | Accept "string + conn" "string \<Rightarrow> string + conn"

text \<open>
  What a run does, in order: the lines it logs, the selector calls it makes (recorded in
  the channel-based revision), and the forwarders it starts (\<open>None\<close> is a nil
  connection).
\<close>

datatype action = Log log_line | Call string | GoForward "conn option" conn

text \<open>
  How far a run got on a finite list of events: \<^verbatim>\<open>Start\<close> returned an error, the loop is
  still serving, the goroutine is blocked on the lock for good, or the process died in a
  run-time panic.
\<close>

datatype outcome = Returned string | Serving | Blocked | Crashed string

definition did :: "action list \<Rightarrow> outcome \<times> 'a \<times> action list \<Rightarrow> outcome \<times> 'a \<times> action list" where
  "did as r = (case r of (out, lb, as') \<Rightarrow> (out, lb, as @ as'))"

text \<open>
  The loop of \<^verbatim>\<open>Start\<close> in the lock-based revision (part_002, lines 119-140), with the
  rounds of the monitor goroutine interleaved. A monitor that waits for the write lock
  runs no further round.
\<close>

fun Start_loop :: "apiServerLb \<Rightarrow> event list \<Rightarrow> outcome \<times> apiServerLb \<times> action list" where
  "Start_loop lb [] = (Serving, lb, [])"
| "Start_loop lb (Tick net # evs) =
     (if writerWaiting (HealthyServersLock lb) then Start_loop lb evs
      else
        (case startHealthChecks_iter lb net of
           None \<Rightarrow> Start_loop lb evs
         | Some (lb', lg) \<Rightarrow> did (map Log lg) (Start_loop lb' evs)))"
| "Start_loop lb (Accept (Inl err) dial # evs) = (Returned err, lb, [Log (ErrAccept err)])"
| "Start_loop lb (Accept (Inr localConn) dial # evs) =
     (case chooseRemote lb of
        None \<Rightarrow> (Blocked, lb, [])
      | Some (Inl (Panic p), lb1) \<Rightarrow> (Crashed p, lb1, [])
      | Some (Inl (Error err), lb1) \<Rightarrow> did [Log (ErrForward err)] (Start_loop lb1 evs)
      | Some (Inr remote, lb1) \<Rightarrow>
          (case dial remote of
             Inl err \<Rightarrow>
               (case removeHealthyRemote lb1 remote of
                  None \<Rightarrow> (Blocked, lb1, [Log (ErrForward err)])
                | Some lb2 \<Rightarrow> did [Log (ErrForward err)] (Start_loop lb2 evs))
           | Inr remoteConn \<Rightarrow>
               did [GoForward (Some localConn) remoteConn] (Start_loop lb1 evs)))"

text \<open>\<^verbatim>\<open>Start\<close> (part_002, lines 110-141); \<open>listen\<close> is the result of \<^verbatim>\<open>net.Listen\<close>.\<close>

definition Start ::
  "apiServerLb \<Rightarrow> string + unit \<Rightarrow> event list \<Rightarrow> outcome \<times> apiServerLb \<times> action list" where
  "Start lb listen evs =
     (case listen of Inl err \<Rightarrow> (Returned err, lb, []) | Inr listener \<Rightarrow> Start_loop lb evs)"

text \<open>The instance \<^verbatim>\<open>main\<close> creates (part_002, lines 183-190).\<close>

definition main_lb :: "Configuration \<Rightarrow> Client \<Rightarrow> apiServerLb" where
  "main_lb config client =
     \<lparr>Local = ListenAddr config, RemoteServers = KubeApiServers config, HealthyServers = [],
      HealthyServersLock = RWMutex_zero, rrCounter = 1,
      healthCheckRules = HealthCheckRules config, httpClient = client\<rparr>"

text \<open>
  The states the lock-based revision can reach from the instance of \<^verbatim>\<open>main\<close>, by the
  three operations on the shared struct in any order and with any argument: a round of
  the monitor, a selection, a removal.
\<close>

inductive reachable :: "Configuration \<Rightarrow> apiServerLb \<Rightarrow> bool" for config :: Configuration where
  reach_main: "reachable config (main_lb config main_client)"
| reach_tick:
    "reachable config lb \<Longrightarrow> startHealthChecks_iter lb net = Some (lb', lg) \<Longrightarrow>
     reachable config lb'"
| reach_choose:
    "reachable config lb \<Longrightarrow> chooseRemote lb = Some (r, lb') \<Longrightarrow> reachable config lb'"
| reach_remove:
    "reachable config lb \<Longrightarrow> removeHealthyRemote lb remote = Some lb' \<Longrightarrow>
     reachable config lb'"

text \<open>The loop of \<^verbatim>\<open>Start\<close> in \<^verbatim>\<open>src/main.go\<close> (lines 84-104).\<close>

fun Start_loop_m ::
  "apiServerLb_m \<Rightarrow> event list \<Rightarrow> outcome \<times> apiServerLb_m \<times> action list" where
  "Start_loop_m lb [] = (Serving, lb, [])"
| "Start_loop_m lb (Tick net # evs) =
     (case startHealthChecks_iter_m lb net of
        None \<Rightarrow> Start_loop_m lb evs
      | Some lb' \<Rightarrow> Start_loop_m lb' evs)"
| "Start_loop_m lb (Accept (Inl err) dial # evs) = (Returned err, lb, [Log (ErrAccept err)])"
| "Start_loop_m lb (Accept (Inr localConn) dial # evs) =
     (case chooseRemote_m lb of
        Inl (Panic p) \<Rightarrow> (Crashed p, lb, [])
      | Inl (Error err) \<Rightarrow> did [Log (ErrForward err)] (Start_loop_m lb evs)
      | Inr remote \<Rightarrow>
          (case dial remote of
             Inl err \<Rightarrow> did [Log (ErrForward err)] (Start_loop_m lb evs)
           | Inr remoteConn \<Rightarrow>
               did [GoForward (Some localConn) remoteConn] (Start_loop_m lb evs)))"

definition Start_m ::
  "apiServerLb_m \<Rightarrow> string + unit \<Rightarrow> event list \<Rightarrow> outcome \<times> apiServerLb_m \<times> action list" where
  "Start_m lb listen evs =
     (case listen of Inl err \<Rightarrow> (Returned err, lb, []) | Inr listener \<Rightarrow> Start_loop_m lb evs)"

text \<open>The instance \<^verbatim>\<open>main\<close> creates in \<^verbatim>\<open>src/main.go\<close> (lines 135-141).\<close>

definition main_lb_m :: "Configuration \<Rightarrow> apiServerLb_m" where
  "main_lb_m config =
     \<lparr>Local_m = ListenAddr config, RemoteServers_m = KubeApiServers config,
      HealthyServers_m = [], rrCounter_m = 1, healthCheckRules_m = HealthCheckRules config\<rparr>"

text \<open>
  One iteration of \<^verbatim>\<open>acceptAsChan\<close> (part_001, lines 284-292): the error is logged and
  the connection, nil after an error, is sent on the channel all the same.
\<close>

definition acceptAsChan_iter :: "string + conn \<Rightarrow> action list \<times> conn option" where
  "acceptAsChan_iter accepted =
     (case accepted of
        Inl err \<Rightarrow> ([Log (ErrAccept err)], None)
      | Inr localConn \<Rightarrow> ([], Some localConn))"

text \<open>
  The selection of \<^verbatim>\<open>Start\<close> in the channel-based revision (part_001, lines 313-322):
  \<^verbatim>\<open>chooseHealthyRemote\<close>, and \<^verbatim>\<open>chooseRemote\<close> inside the branch of its error.
\<close>

definition Start_select ::
  "apiServerLb_c \<Rightarrow> string list \<Rightarrow> (fault + string) \<times> apiServerLb_c \<times> action list" where
  "Start_select lb healthyServers =
     (case chooseHealthyRemote lb healthyServers of
        (Inr remote, lb1) \<Rightarrow> (Inr remote, lb1, [Call ''chooseHealthyRemote''])
      | (Inl (Panic p), lb1) \<Rightarrow> (Inl (Panic p), lb1, [Call ''chooseHealthyRemote''])
      | (Inl (Error err), lb1) \<Rightarrow>
          (case chooseRemote_c lb1 of
             (Inl (Error err'), lb2) \<Rightarrow>
               (Inl (Error err'), lb2,
                [Call ''chooseHealthyRemote'', Log (ErrSelectHealthy err),
                 Call ''chooseRemote'', Log (ErrSelect err')])
           | (r, lb2) \<Rightarrow>
               (r, lb2,
                [Call ''chooseHealthyRemote'', Log (ErrSelectHealthy err),
                 Call ''chooseRemote''])))"

text \<open>
  The events of the channel-based revision: a value arrives on \<^verbatim>\<open>connChan\<close> (what
  \<^verbatim>\<open>listener.Accept\<close> returned in \<^verbatim>\<open>acceptAsChan\<close>, and the answers of \<^verbatim>\<open>net.Dial\<close>), or
  the monitor finishes a round and its list arrives on \<^verbatim>\<open>HealthyServersChan\<close>.
\<close>

datatype event_c =
    ConnChan "string + conn" "string \<Rightarrow> string + conn"
  | HealthyChan "string \<Rightarrow> server"

text \<open>
  The \<^verbatim>\<open>select\<close> loop of \<^verbatim>\<open>Start\<close> (part_001, lines 310-335). The state is the struct and
  the local variable \<^verbatim>\<open>healthyServers\<close>. The loop has no \<^verbatim>\<open>return\<close>.
\<close>

fun Start_loop_c ::
  "apiServerLb_c \<Rightarrow> string list \<Rightarrow> event_c list \<Rightarrow>
   outcome \<times> (apiServerLb_c \<times> string list) \<times> action list" where
  "Start_loop_c lb healthyServers [] = (Serving, (lb, healthyServers), [])"
| "Start_loop_c lb healthyServers (HealthyChan net # evs) =
     (case startHealthChecks_iter_c lb net of
        None \<Rightarrow> Start_loop_c lb healthyServers evs
      | Some (newHealthyServers, lg) \<Rightarrow>
          did (map Log lg) (Start_loop_c lb newHealthyServers evs))"
| "Start_loop_c lb healthyServers (ConnChan accepted dial # evs) =
     (case acceptAsChan_iter accepted of
        (lg, conn) \<Rightarrow>
          (case Start_select lb healthyServers of
             (Inl (Panic p), lb1, tr) \<Rightarrow> (Crashed p, (lb1, healthyServers), lg @ tr)
           | (Inl (Error err), lb1, tr) \<Rightarrow>
               did (lg @ tr) (Start_loop_c lb1 healthyServers evs)
           | (Inr remote, lb1, tr) \<Rightarrow>
               (case dial remote of
                  Inl err \<Rightarrow>
                    did (lg @ tr @ [Log (ErrForward err)])
                      (Start_loop_c lb1 (removeHealthyRemote_c healthyServers remote) evs)
                | Inr remoteConn \<Rightarrow>
                    did (lg @ tr @ [GoForward conn remoteConn])
                      (Start_loop_c lb1 healthyServers evs))))"



text \<open>\<open>n\<close> consecutive calls of \<^verbatim>\<open>chooseHealthyRemote\<close> on the same list: the results in order.\<close>

fun chooseHealthyRemote_times ::
  "nat \<Rightarrow> apiServerLb_c \<Rightarrow> string list \<Rightarrow> (fault + string) list \<times> apiServerLb_c" where
  "chooseHealthyRemote_times 0 lb hs = ([], lb)"
| "chooseHealthyRemote_times (Suc n) lb hs =
     (case chooseHealthyRemote lb hs of
        (r, lb') \<Rightarrow>
          (case chooseHealthyRemote_times n lb' hs of (rs, lb'') \<Rightarrow> (r # rs, lb'')))"

section \<open>Example values\<close>

text \<open>The three backends and the listen address of the first revision (part_000).\<close>

definition example_config :: Configuration where
  "example_config =
     \<lparr>KubeApiServers = [''10.0.0.101:6443'', ''10.0.0.102:6443'', ''10.0.0.103:6443''],
      ListenAddr = ''127.0.0.1:6443'',
      HealthCheckRules = \<lparr>Period = 30, UpThreshold = 1, DownThreshold = 1\<rparr>\<rparr>"

text \<open>A network in which every backend answers 200 within a second.\<close>

definition all_up :: "string \<Rightarrow> server" where
  "all_up url = Answers True 1 200"

text \<open>Dialling: every address refuses, or every address connects (to connection 100).\<close>

definition dial_refused :: "string \<Rightarrow> string + conn" where
  "dial_refused remote = Inl (''dial tcp '' @ remote @ '': connection refused'')"

definition dial_ok :: "string \<Rightarrow> string + conn" where
  "dial_ok remote = Inr 100"

definition process_start :: process where
  "process_start = \<lparr>closedConns = {}, logs = [], exitCode = None\<rparr>"

section \<open>Facts about the Go values\<close>

lemma sint_succ: "sint (c :: go_int) < 2 ^ 63 - 1 \<Longrightarrow> sint (c + 1) = sint c + 1"
proof -
  assume "sint c < 2 ^ 63 - 1"
  moreover have "- (2 ^ 63) \<le> sint c"
    using sint_ge [of c] by simp
  ultimately have "signed_take_bit 63 (sint c + 1) = sint c + 1"
    by (intro signed_take_bit_int_eq_self) simp_all
  then show ?thesis
    by (simp add: sint_word_ariths)
qed

lemma go_rem_nonneg:
  "0 < n \<Longrightarrow> 0 \<le> sint c \<Longrightarrow> go_rem c n = Inr (int (nat (sint c) mod n))"
  by (simp add: go_rem_def smod_mod_positive zmod_int)

lemma removeHealthyRemote_range_filter:
  "removeHealthyRemote_range remote acc xs = acc @ filter (\<lambda>s. s \<noteq> remote) xs"
  by (induction xs arbitrary: acc) auto

lemma rotate_nth_map:
  "xs \<noteq> [] \<Longrightarrow> map (\<lambda>i. xs ! ((k + i) mod length xs)) [0..<length xs] = rotate k xs"
  by (rule nth_equalityI) (simp_all add: nth_rotate add.commute)

section \<open>Round-robin selection\<close>

text \<open>
  The channel-based revision: with a non-negative counter, \<^verbatim>\<open>chooseHealthyRemote\<close> returns
  the element at \<open>counter mod N\<close> and adds one to the counter.
\<close>

lemma chooseHealthyRemote_pick:
  assumes "hs \<noteq> []" and "0 \<le> sint (rrCounter_c lb)"
  shows "chooseHealthyRemote lb hs =
    (Inr (hs ! (nat (sint (rrCounter_c lb)) mod length hs)),
     lb\<lparr>rrCounter_c := rrCounter_c lb + 1\<rparr>)"
  using assms by (simp add: chooseHealthyRemote_def go_rem_nonneg index_def Let_def)

lemma chooseHealthyRemote_times_round_robin:
  assumes "hs \<noteq> []"
  shows "0 \<le> sint (rrCounter_c lb) \<Longrightarrow> sint (rrCounter_c lb) + int n < 2 ^ 63 \<Longrightarrow>
    chooseHealthyRemote_times n lb hs =
      (map (\<lambda>i. Inr (hs ! ((nat (sint (rrCounter_c lb)) + i) mod length hs))) [0..<n],
       lb\<lparr>rrCounter_c := rrCounter_c lb + of_nat n\<rparr>)"
proof (induction n arbitrary: lb)
  case 0
  then show ?case by simp
next
  case (Suc n)
  let ?c = "rrCounter_c lb"
  let ?lb' = "lb\<lparr>rrCounter_c := ?c + 1\<rparr>"
  have s: "sint (?c + 1) = sint ?c + 1"
    using Suc.prems by (intro sint_succ) simp
  have step: "chooseHealthyRemote lb hs = (Inr (hs ! (nat (sint ?c) mod length hs)), ?lb')"
    using assms Suc.prems by (simp add: chooseHealthyRemote_pick)
  have ih: "chooseHealthyRemote_times n ?lb' hs =
      (map (\<lambda>i. Inr (hs ! ((nat (sint (?c + 1)) + i) mod length hs))) [0..<n],
       ?lb'\<lparr>rrCounter_c := ?c + 1 + of_nat n\<rparr>)"
    using Suc.IH [of ?lb'] Suc.prems s by simp
  have n1: "nat (sint (?c + 1)) = Suc (nat (sint ?c))"
    using s Suc.prems by simp
  have m: "map (\<lambda>i. Inr (hs ! ((nat (sint ?c) + i) mod length hs)) :: fault + string) [0..<Suc n] =
      Inr (hs ! (nat (sint ?c) mod length hs)) #
      map (\<lambda>i. Inr (hs ! ((nat (sint (?c + 1)) + i) mod length hs))) [0..<n]"
    unfolding n1 by (simp add: upt_conv_Cons map_Suc_upt [symmetric] del: upt_Suc)
  have "chooseHealthyRemote_times (Suc n) lb hs =
      (Inr (hs ! (nat (sint ?c) mod length hs)) #
       map (\<lambda>i. Inr (hs ! ((nat (sint (?c + 1)) + i) mod length hs))) [0..<n],
       ?lb'\<lparr>rrCounter_c := ?c + 1 + of_nat n\<rparr>)"
    by (simp only: chooseHealthyRemote_times.simps step ih prod.case)
  also have "?lb'\<lparr>rrCounter_c := ?c + 1 + of_nat n\<rparr> = lb\<lparr>rrCounter_c := ?c + of_nat (Suc n)\<rparr>"
    by (simp add: add.assoc)
  finally show ?case
    by (simp only: m)
qed

text \<open>
  \<open>N\<close> consecutive calls on an unchanged list of \<open>N\<close> servers return the list rotated
  by \<open>counter mod N\<close>: every position once, in round-robin order, and the counter has
  advanced by \<open>N\<close>. The counter must stay below \<open>2 ^ 63\<close>.
\<close>

lemma chooseHealthyRemote_full_cycle:
  assumes "hs \<noteq> []" and "0 \<le> sint (rrCounter_c lb)"
    and "sint (rrCounter_c lb) + int (length hs) < 2 ^ 63"
  shows "chooseHealthyRemote_times (length hs) lb hs =
    (map Inr (rotate (nat (sint (rrCounter_c lb))) hs),
     lb\<lparr>rrCounter_c := rrCounter_c lb + of_nat (length hs)\<rparr>)"
proof -
  have "map (\<lambda>i. Inr (hs ! ((nat (sint (rrCounter_c lb)) + i) mod length hs)) :: fault + string)
          [0..<length hs] =
        map Inr (map (\<lambda>i. hs ! ((nat (sint (rrCounter_c lb)) + i) mod length hs)) [0..<length hs])"
    by simp
  also have "\<dots> = map Inr (rotate (nat (sint (rrCounter_c lb))) hs)"
    by (rule arg_cong [where f = "map Inr"]) (rule rotate_nth_map [OF assms(1)])
  finally show ?thesis
    using chooseHealthyRemote_times_round_robin [OF assms] by simp
qed

text \<open>Past the largest \<^verbatim>\<open>int\<close> the counter is negative and the pick panics.\<close>

lemma chooseHealthyRemote_after_overflow:
  "fst (chooseHealthyRemote (lb\<lparr>rrCounter_c := 2 ^ 63 - 1 + 1\<rparr>) [''X'', ''Y'', ''Z'']) =
     Inl (Panic ''index out of range'')"
  by (simp add: chooseHealthyRemote_def go_rem_def index_def Let_def signed_modulo_int_def)

text \<open>
  \<^verbatim>\<open>chooseRemote\<close> of the lock-based revision returns with the counter it was called
  with, whatever the healthy set and the result.
\<close>

lemma chooseRemote_counter_unchanged:
  "chooseRemote lb = Some (r, lb') \<Longrightarrow> rrCounter lb' = rrCounter lb"
  by (auto simp: chooseRemote_def Let_def split: option.splits sum.splits if_splits)

text \<open>
  Claim C1 (\<open>N\<close> consecutive selections visit every healthy backend once, and every
  successful selection increments the cursor once), evaluated on \<^verbatim>\<open>chooseRemote\<close> of the
  lock-based revision: with the first two backends healthy and the counter 1 that
  \<^verbatim>\<open>main\<close> sets, the call returns the second backend and leaves the struct, counter
  included, exactly as it was. The next call therefore starts from the same state and
  returns the second backend again; the first is never selected.
\<close>

theorem chooseRemote_counter_stands_still:
  "chooseRemote
     ((main_lb example_config main_client)
        \<lparr>HealthyServers := [''10.0.0.101:6443'', ''10.0.0.102:6443'']\<rparr>) =
   Some (Inr ''10.0.0.102:6443'',
     (main_lb example_config main_client)
        \<lparr>HealthyServers := [''10.0.0.101:6443'', ''10.0.0.102:6443'']\<rparr>)"
  by (simp add: chooseRemote_def main_lb_def RLock_def RUnlock_def RWMutex_zero_def
      go_rem_def index_def Let_def signed_modulo_int_def)

text \<open>The same in \<^verbatim>\<open>src/main.go\<close>, whose \<^verbatim>\<open>chooseRemote\<close> has no effect on the struct at all.\<close>

lemma chooseRemote_m_same_pick:
  "chooseRemote_m
     ((main_lb_m example_config)
        \<lparr>HealthyServers_m := [''10.0.0.101:6443'', ''10.0.0.102:6443'']\<rparr>) =
   Inr ''10.0.0.102:6443''"
  by (simp add: chooseRemote_m_def main_lb_m_def go_rem_def index_def Let_def
      signed_modulo_int_def)



section \<open>The fallback selector\<close>

lemma did_fst [simp]: "fst (did as r) = fst r"
  by (simp add: did_def split: prod.splits)

lemma did_state [simp]: "fst (snd (did as r)) = fst (snd r)"
  by (simp add: did_def split: prod.splits)

lemma did_trace [simp]: "snd (snd (did as r)) = as @ snd (snd r)"
  by (simp add: did_def split: prod.splits)





section \<open>The health monitor: what a round publishes\<close>

text \<open>A client with a timeout returns from every probe.\<close>

lemma Client_Get_returns: "Timeout c \<noteq> 0 \<Longrightarrow> Client_Get c s \<noteq> None"
  by (cases s) (simp_all add: Client_Get_def)

text \<open>
  When every probe returns, the loop ends with the servers whose probe returned status
  200 without error, in the order of the configured list, appended to the accumulator.
\<close>

lemma startHealthChecks_range_filter:
  assumes "\<forall>s \<in> set xs. get (''https://'' @ s @ ''/healthz'') \<noteq> None"
  shows "\<exists>lg'. startHealthChecks_range get xs acc lg =
    Some (acc @ filter (\<lambda>s. get (''https://'' @ s @ ''/healthz'') = Some (Inr 200)) xs, lg')"
  using assms
proof (induction xs arbitrary: acc lg)
  case Nil
  then show ?case by simp
next
  case (Cons x xs)
  from Cons.prems obtain r where r: "get (''https://'' @ x @ ''/healthz'') = Some r"
    by auto
  have rest: "\<forall>s \<in> set xs. get (''https://'' @ s @ ''/healthz'') \<noteq> None"
    using Cons.prems by simp
  show ?case
  proof (cases r)
    case (Inl err)
    with r Cons.IH [OF rest, of acc "lg @ [NotHealthy x (Inl err)]"] show ?thesis
      by simp
  next
    case (Inr code)
    show ?thesis
    proof (cases "code = 200")
      case True
      with r Inr Cons.IH [OF rest, of "acc @ [x]" lg] show ?thesis by simp
    next
      case False
      with r Inr Cons.IH [OF rest, of acc "lg @ [NotHealthy x (Inr code)]"] show ?thesis
        by simp
    qed
  qed
qed

lemma startHealthChecks_range_subset:
  "startHealthChecks_range get xs acc lg = Some (new, lg') \<Longrightarrow> set new \<subseteq> set acc \<union> set xs"
proof (induction xs arbitrary: acc lg)
  case Nil
  then show ?case by simp
next
  case (Cons x xs)
  then show ?case
    by (fastforce split: option.splits sum.splits if_splits)
qed

text \<open>
  The lock-based revision with a client that has a timeout: a round always completes,
  and when the write lock is free the new \<^verbatim>\<open>HealthyServers\<close> is the list of configured
  servers whose probe returned 200. The old list does not occur in the new one: it is
  replaced.
\<close>

lemma startHealthChecks_iter_publishes:
  assumes "Timeout (httpClient lb) \<noteq> 0" and "Lock (HealthyServersLock lb) = Some m"
  shows "\<exists>lg. startHealthChecks_iter lb net =
    Some (lb\<lparr>HealthyServers :=
               filter (\<lambda>s. Client_Get (httpClient lb) (net (''https://'' @ s @ ''/healthz'')) =
                            Some (Inr 200)) (RemoteServers lb),
             HealthyServersLock := Unlock m\<rparr>, lg)"
proof -
  let ?get = "\<lambda>url. Client_Get (httpClient lb) (net url)"
  have "\<forall>s \<in> set (RemoteServers lb). ?get (''https://'' @ s @ ''/healthz'') \<noteq> None"
    using assms(1) by (simp add: Client_Get_returns)
  from startHealthChecks_range_filter [where get = ?get, OF this, of "[]" "[]"]
  obtain lg where "startHealthChecks_range ?get (RemoteServers lb) [] [] =
    Some (filter (\<lambda>s. ?get (''https://'' @ s @ ''/healthz'') = Some (Inr 200))
            (RemoteServers lb), lg)"
    by auto
  then show ?thesis
    using assms(2) by (simp add: startHealthChecks_iter_def)
qed

text \<open>
  With the client of \<^verbatim>\<open>main\<close> (certificates not verified, five seconds), backends that
  answer 200 under a certificate that does not verify are all published.
\<close>

lemma startHealthChecks_iter_main_client:
  "startHealthChecks_iter (main_lb example_config main_client) (\<lambda>url. Answers False 1 200) =
     Some ((main_lb example_config main_client)
             \<lparr>HealthyServers := KubeApiServers example_config\<rparr>, [])"
  by (simp add: startHealthChecks_iter_def main_lb_def example_config_def Client_Get_def
      main_client_def Lock_def Unlock_def RWMutex_zero_def)

text \<open>
  \<^verbatim>\<open>src/main.go\<close>: a round that completes publishes the configured servers whose probe
  returned 200, whatever the list was before.
\<close>

lemma startHealthChecks_range_m_filter:
  "startHealthChecks_range_m net xs acc = Some new \<Longrightarrow>
     new = acc @ filter (\<lambda>s. Client_Get DefaultClient (net (''https://'' @ s @ ''/healthz'')) =
                              Some (Inr 200)) xs"
proof (induction xs arbitrary: acc)
  case Nil
  then show ?case by simp
next
  case (Cons x xs)
  show ?case
  proof (cases "Client_Get DefaultClient (net (''https://'' @ x @ ''/healthz'')) = Some (Inr 200)")
    case True
    with Cons.prems have "startHealthChecks_range_m net xs (acc @ [x]) = Some new"
      by simp
    from Cons.IH [OF this] True show ?thesis
      by simp
  next
    case False
    with Cons.prems have "startHealthChecks_range_m net xs acc = Some new"
      by (simp split: option.splits sum.splits if_splits)
    from Cons.IH [OF this] False show ?thesis
      by simp
  qed
qed

lemma startHealthChecks_iter_m_publishes:
  "startHealthChecks_iter_m lb net = Some lb' \<Longrightarrow>
     HealthyServers_m lb' =
       filter (\<lambda>s. Client_Get DefaultClient (net (''https://'' @ s @ ''/healthz'')) =
                    Some (Inr 200)) (RemoteServers_m lb)"
  by (auto simp: startHealthChecks_iter_m_def split: option.splits
      dest: startHealthChecks_range_m_filter)


section \<open>The stream forwarder: closing and logging\<close>

lemma CloseAndLog_exit [simp]: "exitCode (CloseAndLog c st) = exitCode st"
  by (simp add: CloseAndLog_def Close_def Printf_def)

lemma CloseAndLog_closed: "closedConns (CloseAndLog c st) = insert c (closedConns st)"
  by (auto simp add: CloseAndLog_def Close_def Printf_def)

text \<open>
  \<^verbatim>\<open>copyConn\<close> of the lock-based and the channel-based revision: whatever \<^verbatim>\<open>io.Copy\<close>
  returned, both connections are closed afterwards, the process keeps running, and a
  copy error is in the log.
\<close>

lemma copyConn_closes_both:
  "closedConns (copyConn writer reader err st) = {writer, reader} \<union> closedConns st"
  by (auto simp: copyConn_def CloseAndLog_closed Printf_def Let_def split: option.splits)

lemma copyConn_keeps_running: "exitCode (copyConn writer reader err st) = exitCode st"
  by (simp add: copyConn_def Printf_def Let_def split: option.splits)

lemma copyConn_logs_error: "ErrCopy e \<in> set (logs (copyConn writer reader (Some e) st))"
  by (auto simp: copyConn_def CloseAndLog_def Close_def Printf_def Let_def)

lemma forward_keeps_running:
  "exitCode (forward localConn remoteConn localFirst err1 err2 st) = exitCode st"
  by (simp add: forward_def copyConn_keeps_running)

lemma forward_closes_both:
  "closedConns (forward localConn remoteConn localFirst err1 err2 st) =
     {localConn, remoteConn} \<union> closedConns st"
  by (auto simp: forward_def copyConn_closes_both)

text \<open>
  \<^verbatim>\<open>copyConn\<close> of \<^verbatim>\<open>src/main.go\<close> in a running process: any copy error ends the process,
  and a reader that is open and is not the writer stays open.
\<close>

lemma copyConn_m_any_error_exits:
  "exitCode st = None \<Longrightarrow> exitCode (copyConn_m writer reader (Some e) st) = Some 1"
  by (simp add: copyConn_m_def Fatalf_def)

lemma copyConn_m_reader_stays_open:
  "reader \<noteq> writer \<Longrightarrow> reader \<notin> closedConns st \<Longrightarrow>
     reader \<notin> closedConns (copyConn_m writer reader err st)"
  by (auto simp: copyConn_m_def Fatalf_def Close_def split: option.splits if_splits)

text \<open>
  Claim C5 (copy and close errors are logged and never terminate the process),
  evaluated on \<^verbatim>\<open>src/main.go\<close>: when \<^verbatim>\<open>io.Copy\<close> returns an error, \<^verbatim>\<open>copyConn\<close> calls
  \<^verbatim>\<open>log.Fatalf\<close> and the process exits with status 1. This is also how an ordinary session
  ends: the direction that finishes first closes its writer, the copy of the other
  direction then fails on the closed connection, and the process exits.
\<close>

theorem copyConn_m_error_exits:
  "copyConn_m 1 2 (Some ''read: connection reset by peer'') process_start =
     \<lparr>closedConns = {}, logs = [ErrCopy ''read: connection reset by peer''],
      exitCode = Some 1\<rparr> \<and>
   forward_m 1 2 True None (Some ''use of closed network connection'') process_start =
     \<lparr>closedConns = {1}, logs = [ErrCopy ''use of closed network connection''],
      exitCode = Some 1\<rparr>"
  by (simp add: forward_m_def copyConn_m_def process_start_def Fatalf_def Close_def)

text \<open>
  Claim C6 (each direction closes both sockets, at end of stream and on error),
  evaluated on \<^verbatim>\<open>src/main.go\<close>: at end of stream \<^verbatim>\<open>copyConn\<close> closes the writer (connection
  1) and leaves the reader (connection 2) open; on a copy error it closes neither.
\<close>

theorem copyConn_m_reader_left_open:
  "closedConns (copyConn_m 1 2 None process_start) = {1} \<and>
   closedConns (copyConn_m 1 2 (Some ''read: connection reset by peer'') process_start) = {}"
  by (simp add: copyConn_m_def process_start_def Fatalf_def Close_def)

section \<open>The healthy set of the lock-based revision\<close>

text \<open>With the counter at 1 the remainder and the index never panic on a non-empty list.\<close>

lemma pick_counter_one:
  assumes "xs \<noteq> []"
  shows "\<exists>i. go_rem 1 (length xs) = Inr i \<and> index xs i = Inr (xs ! nat i) \<and> nat i < length xs"
proof -
  have n: "0 < int (length xs)"
    using assms by simp
  have "go_rem 1 (length xs) = Inr (1 mod int (length xs))"
    using assms by (simp add: go_rem_def smod_mod_positive)
  moreover have "0 \<le> 1 mod int (length xs)" "1 mod int (length xs) < int (length xs)"
    using n by (rule pos_mod_sign, rule pos_mod_bound)
  ultimately show ?thesis
    by (intro exI [of _ "1 mod int (length xs)"]) (simp add: index_def)
qed

text \<open>
  What a call of \<^verbatim>\<open>chooseRemote\<close> that returns does to the struct: on the empty set it
  leaves one more read lock held; otherwise it picks a healthy server and changes nothing.
\<close>

lemma chooseRemote_reachable_step:
  assumes "rrCounter lb = 1" and "chooseRemote lb = Some (r, lb')"
  shows "(HealthyServers lb = [] \<and> r = Inl (Error ''no remote servers are Healthy'') \<and>
          lb' = lb\<lparr>HealthyServersLock :=
                    (HealthyServersLock lb)
                      \<lparr>readerCount := Suc (readerCount (HealthyServersLock lb))\<rparr>\<rparr>) \<or>
         (HealthyServers lb \<noteq> [] \<and> (\<exists>picked \<in> set (HealthyServers lb). r = Inr picked) \<and>
          lb' = lb)"
proof (cases "HealthyServers lb = []")
  case True
  with assms(2) show ?thesis
    by (auto simp: chooseRemote_def RLock_def Let_def split: if_splits)
next
  case False
  from pick_counter_one [OF False] obtain i where
    i: "go_rem 1 (length (HealthyServers lb)) = Inr i"
       "index (HealthyServers lb) i = Inr (HealthyServers lb ! nat i)"
       "nat i < length (HealthyServers lb)"
    by blast
  with assms False show ?thesis
    by (auto simp: chooseRemote_def RLock_def RUnlock_def Let_def split: if_splits)
qed

text \<open>
  In every reachable state: the configured list and the counter are those of \<^verbatim>\<open>main\<close>,
  the write lock is not held between operations, a read lock is held only while the
  healthy set is empty, and the healthy servers are configured servers.
\<close>

lemma reachable_invariant:
  "reachable config lb \<Longrightarrow>
     RemoteServers lb = KubeApiServers config \<and> rrCounter lb = 1 \<and>
     \<not> writerHeld (HealthyServersLock lb) \<and>
     (0 < readerCount (HealthyServersLock lb) \<longrightarrow> HealthyServers lb = []) \<and>
     set (HealthyServers lb) \<subseteq> set (KubeApiServers config)"
proof (induction rule: reachable.induct)
  case reach_main
  then show ?case by (simp add: main_lb_def RWMutex_zero_def)
next
  case (reach_tick lb net lb' lg)
  then show ?case
    by (auto simp: startHealthChecks_iter_def Lock_def Unlock_def
        split: option.splits prod.splits if_splits
        dest!: startHealthChecks_range_subset)
next
  case (reach_choose lb r lb')
  then have "rrCounter lb = 1" by simp
  from chooseRemote_reachable_step [OF this reach_choose.hyps(2)] reach_choose.IH
  show ?case by auto
next
  case (reach_remove lb remote lb')
  then show ?case
    by (auto simp: removeHealthyRemote_def removeHealthyRemote_range_filter Lock_def Unlock_def
        split: option.splits if_splits)
qed

text \<open>Every state of a run of \<^verbatim>\<open>Start\<close> from a reachable state is reachable.\<close>

lemma Start_loop_reachable:
  "reachable config lb \<Longrightarrow> reachable config (fst (snd (Start_loop lb evs)))"
proof (induction evs arbitrary: lb)
  case Nil
  then show ?case by simp
next
  case (Cons ev evs)
  show ?case
  proof (cases ev)
    case (Tick net)
    show ?thesis
    proof (cases "startHealthChecks_iter lb net")
      case None
      with Cons Tick show ?thesis by simp
    next
      case (Some a)
      obtain lb' lg where a: "a = (lb', lg)" by (cases a)
      have "reachable config lb'"
        using Cons.prems Some a by (auto intro: reach_tick)
      with Cons Tick Some a show ?thesis by simp
    qed
  next
    case (Accept accepted dial)
    show ?thesis
    proof (cases accepted)
      case (Inl err)
      with Cons Accept show ?thesis by simp
    next
      case (Inr localConn)
      show ?thesis
      proof (cases "chooseRemote lb")
        case None
        with Cons Accept Inr show ?thesis by simp
      next
        case (Some a)
        obtain r lb1 where a: "a = (r, lb1)" by (cases a)
        have r1: "reachable config lb1"
          using Cons.prems Some a by (auto intro: reach_choose)
        show ?thesis
        proof (cases r)
          case (Inl f)
          with Cons.IH [OF r1] Accept \<open>accepted = Inr localConn\<close> Some a r1 show ?thesis
            by (cases f) simp_all
        next
          case remote: (Inr remote)
          show ?thesis
          proof (cases "dial remote")
            case (Inl err)
            show ?thesis
            proof (cases "removeHealthyRemote lb1 remote")
              case None
              with Accept \<open>accepted = Inr localConn\<close> Some a r1 remote Inl show ?thesis
                by simp
            next
              case lb2: (Some lb2)
              then have "reachable config lb2"
                using r1 by (auto intro: reach_remove)
              with Cons.IH [of lb2] Accept \<open>accepted = Inr localConn\<close> Some a remote Inl lb2
              show ?thesis by simp
            qed
          next
            case (Inr remoteConn)
            with Cons.IH [OF r1] Accept \<open>accepted = Inr localConn\<close> Some a remote
            show ?thesis by simp
          qed
        qed
      qed
    qed
  qed
qed

text \<open>
  Claim C8: in every reachable state of the lock-based revision the healthy set is a
  subset of the configured backend list. The monitor publishes servers of the configured
  list only, \<^verbatim>\<open>removeHealthyRemote\<close> only removes, and \<^verbatim>\<open>chooseRemote\<close> does not write
  the list.
\<close>

theorem healthy_subset_of_configured:
  "reachable config lb \<Longrightarrow> set (HealthyServers lb) \<subseteq> set (KubeApiServers config)"
  using reachable_invariant by blast

text \<open>The state after one round of the monitor in which every backend answered 200.\<close>

theorem healthy_subset_of_configured_witness:
  "reachable example_config
     ((main_lb example_config main_client)\<lparr>HealthyServers := KubeApiServers example_config\<rparr>) \<and>
   set (HealthyServers
     ((main_lb example_config main_client)\<lparr>HealthyServers := KubeApiServers example_config\<rparr>))
   \<subseteq> set (KubeApiServers example_config)"
proof -
  have "startHealthChecks_iter (main_lb example_config main_client) all_up =
     Some ((main_lb example_config main_client)
             \<lparr>HealthyServers := KubeApiServers example_config\<rparr>, [])"
    by (simp add: startHealthChecks_iter_def main_lb_def example_config_def Client_Get_def
        main_client_def Lock_def Unlock_def RWMutex_zero_def all_up_def)
  with reach_main [of example_config]
  have r: "reachable example_config
     ((main_lb example_config main_client)\<lparr>HealthyServers := KubeApiServers example_config\<rparr>)"
    by (rule reach_tick)
  from r healthy_subset_of_configured [OF r] show ?thesis
    by (rule conjI)
qed

section \<open>Dial failures\<close>

lemma chooseRemote_in_set:
  "chooseRemote lb = Some (Inr picked, lb') \<Longrightarrow>
     picked \<in> set (HealthyServers lb) \<and> HealthyServers lb' = HealthyServers lb \<and>
     HealthyServersLock lb' = HealthyServersLock lb \<and>
     \<not> writerWaiting (HealthyServersLock lb)"
  by (auto simp: chooseRemote_def RLock_def RUnlock_def index_def Let_def
      split: if_splits sum.splits)

text \<open>
  The lock-based revision: after a selection that returned \<open>remote\<close>, the removal that
  follows a failed dial goes through, drops every occurrence of \<open>remote\<close> from the healthy
  list and nothing else, and a selection on the new list never returns \<open>remote\<close>.
\<close>

lemma dial_failure_removes_backend:
  assumes "reachable config lb" and "chooseRemote lb = Some (Inr remote, lb1)"
  shows "\<exists>lb2. removeHealthyRemote lb1 remote = Some lb2 \<and>
      HealthyServers lb2 = filter (\<lambda>s. s \<noteq> remote) (HealthyServers lb) \<and>
      (\<forall>r lb3. chooseRemote lb2 = Some (Inr r, lb3) \<longrightarrow> r \<noteq> remote)"
proof -
  from chooseRemote_in_set [OF assms(2)]
  have sel: "remote \<in> set (HealthyServers lb)" "HealthyServers lb1 = HealthyServers lb"
    "HealthyServersLock lb1 = HealthyServersLock lb"
    by simp_all
  have ne: "HealthyServers lb \<noteq> []"
    using sel(1) by auto
  have free: "\<not> writerHeld (HealthyServersLock lb)" "readerCount (HealthyServersLock lb) = 0"
    using reachable_invariant [OF assms(1)] ne by simp_all
  have lock: "Lock (HealthyServersLock lb1) = Some ((HealthyServersLock lb)\<lparr>writerHeld := True\<rparr>)"
    using free by (simp add: Lock_def sel(3))
  obtain lb2 where rm: "removeHealthyRemote lb1 remote = Some lb2"
    and hs: "HealthyServers lb2 = filter (\<lambda>s. s \<noteq> remote) (HealthyServers lb)"
    by (simp add: removeHealthyRemote_def lock removeHealthyRemote_range_filter sel(2))
  have "r \<noteq> remote" if "chooseRemote lb2 = Some (Inr r, lb3)" for r lb3
  proof -
    from chooseRemote_in_set [OF that] have "r \<in> set (HealthyServers lb2)"
      by simp
    then show ?thesis
      by (simp add: hs)
  qed
  with rm hs show ?thesis
    by blast
qed

text \<open>
  \<^verbatim>\<open>src/main.go\<close>: handling an accepted connection never changes the struct, whatever
  the selection and the dial return.
\<close>

lemma Start_loop_m_accept_keeps_struct:
  "\<exists>out tr. Start_loop_m lb [Accept accepted dial] = (out, lb, tr)"
  by (cases accepted)
     (auto simp: did_def split: sum.splits fault.splits)

text \<open>
  Claim C7 (a backend whose dial failed is removed from the healthy set at once, and the
  next selection excludes it), evaluated on \<^verbatim>\<open>src/main.go\<close>: with the first two backends
  healthy and every dial refused, two accepted connections are both sent to the second
  backend, and the healthy list after the two failures is the list before them.
\<close>

theorem Start_m_keeps_failed_backend:
  "Start_loop_m
     ((main_lb_m example_config)
        \<lparr>HealthyServers_m := [''10.0.0.101:6443'', ''10.0.0.102:6443'']\<rparr>)
     [Accept (Inr 1) dial_refused, Accept (Inr 2) dial_refused] =
   (Serving,
    (main_lb_m example_config)\<lparr>HealthyServers_m := [''10.0.0.101:6443'', ''10.0.0.102:6443'']\<rparr>,
    [Log (ErrForward ''dial tcp 10.0.0.102:6443: connection refused''),
     Log (ErrForward ''dial tcp 10.0.0.102:6443: connection refused'')])"
  by (simp add: chooseRemote_m_def main_lb_m_def go_rem_def index_def Let_def
      signed_modulo_int_def dial_refused_def did_def)

section \<open>Accept failures\<close>

text \<open>
  The lock-based revision (and \<^verbatim>\<open>src/main.go\<close>): a failed \<^verbatim>\<open>Listen\<close> or \<^verbatim>\<open>Accept\<close> makes
  \<^verbatim>\<open>Start\<close> return the error, whatever would come next.
\<close>

lemma Start_returns_accept_error:
  "Start lb (Inl err) evs = (Returned err, lb, []) \<and>
   Start lb (Inr ()) (Accept (Inl err) dial # evs) = (Returned err, lb, [Log (ErrAccept err)]) \<and>
   Start_m lbm (Inr ()) (Accept (Inl err) dial # evs) = (Returned err, lbm, [Log (ErrAccept err)])"
  by (simp add: Start_def Start_m_def)

text \<open>
  The lock-based revision: after a selection error or a dial error the loop goes on with
  the events that follow.
\<close>

lemma Start_loop_continues_after_failure:
  "chooseRemote lb = Some (Inl (Error err), lb1) \<Longrightarrow>
     Start_loop lb (Accept (Inr localConn) dial # evs) =
       did [Log (ErrForward err)] (Start_loop lb1 evs)"
  "chooseRemote lb = Some (Inr remote, lb1) \<Longrightarrow> dial remote = Inl err \<Longrightarrow>
   removeHealthyRemote lb1 remote = Some lb2 \<Longrightarrow>
     Start_loop lb (Accept (Inr localConn) dial # evs) =
       did [Log (ErrForward err)] (Start_loop lb2 evs)"
  by simp_all

text \<open>The \<^verbatim>\<open>select\<close> loop of the channel-based revision never returns an error.\<close>

lemma Start_loop_c_never_returns: "fst (Start_loop_c lb hs evs) \<noteq> Returned e"
proof (induction evs arbitrary: lb hs)
  case Nil
  then show ?case by simp
next
  case (Cons ev evs)
  then show ?case
    by (cases ev) (auto split: option.splits prod.splits sum.splits fault.splits)
qed


section \<open>The read lock of the selector\<close>

text \<open>A selection that returns a server leaves the lock as it found it.\<close>

lemma chooseRemote_success_releases:
  "chooseRemote lb = Some (Inr picked, lb') \<Longrightarrow> HealthyServersLock lb' = HealthyServersLock lb"
  using chooseRemote_in_set by blast

text \<open>On the empty set every call that returns leaves one more read lock held.\<close>

lemma chooseRemote_empty_set_read_lock:
  "HealthyServers lb = [] \<Longrightarrow> chooseRemote lb = Some (r, lb') \<Longrightarrow>
     readerCount (HealthyServersLock lb') = Suc (readerCount (HealthyServersLock lb))"
  by (auto simp: chooseRemote_def RLock_def Let_def split: option.splits if_splits)

text \<open>
  Claim C10 (\<^verbatim>\<open>chooseRemote\<close> releases its read lock on the success path and on the
  empty-set path), evaluated on the instance of \<^verbatim>\<open>main\<close>, whose healthy set is empty until
  the first round of the monitor: the call returns the error with one read lock still
  held, so \<^verbatim>\<open>Lock\<close> cannot be taken. When a connection arrives before the first round,
  the monitor then blocks in \<^verbatim>\<open>Lock\<close> with its result unpublished, and the selection for
  the next connection blocks in \<^verbatim>\<open>RLock\<close> behind the waiting writer.
\<close>

theorem chooseRemote_empty_set_keeps_read_lock:
  "chooseRemote (main_lb example_config main_client) =
     Some (Inl (Error ''no remote servers are Healthy''),
       (main_lb example_config main_client)
         \<lparr>HealthyServersLock := \<lparr>readerCount = 1, writerHeld = False, writerWaiting = False\<rparr>\<rparr>) \<and>
   Lock \<lparr>readerCount = 1, writerHeld = False, writerWaiting = False\<rparr> = None \<and>
   fst (Start (main_lb example_config main_client) (Inr ())
          [Accept (Inr 1) dial_ok, Tick all_up, Accept (Inr 2) dial_ok]) = Blocked \<and>
   HealthyServers (fst (snd (Start (main_lb example_config main_client) (Inr ())
          [Accept (Inr 1) dial_ok, Tick all_up, Accept (Inr 2) dial_ok]))) = []"
  by (simp add: Start_def chooseRemote_def main_lb_def RLock_def Lock_def RWMutex_zero_def
      Let_def startHealthChecks_iter_def example_config_def all_up_def Client_Get_def
      main_client_def)

end
